theory Spec2Isabelle
  imports Complex_Main
begin

section \<open>JavaScript numbers\<close>

text \<open>
  A JavaScript number is NaN, one of the two infinities, or a finite value. The finite
  values are kept as exact rationals: the rounding of a finite result to binary64 is not
  part of this development, and neither is the sign of zero (the only divisor in the
  plugin is an array length, which is never a negative zero).
\<close>

datatype jsnum = NaN | NegInf | Fin rat | PosInf

text \<open>The relational operators \<^verbatim>\<open><=\<close> and \<^verbatim>\<open>>=\<close> on numbers: false as soon as
  one operand is NaN.\<close>

fun js_le :: "jsnum \<Rightarrow> jsnum \<Rightarrow> bool" where
  "js_le NaN _ = False"
| "js_le _ NaN = False"
| "js_le NegInf _ = True"
| "js_le _ PosInf = True"
| "js_le (Fin a) (Fin b) = (a \<le> b)"
| "js_le PosInf _ = False"
| "js_le _ NegInf = False"

definition js_ge :: "jsnum \<Rightarrow> jsnum \<Rightarrow> bool" where
  "js_ge a b = js_le b a"

fun js_neg :: "jsnum \<Rightarrow> jsnum" where
  "js_neg NaN = NaN"
| "js_neg NegInf = PosInf"
| "js_neg PosInf = NegInf"
| "js_neg (Fin a) = Fin (- a)"

fun js_add :: "jsnum \<Rightarrow> jsnum \<Rightarrow> jsnum" where
  "js_add NaN _ = NaN"
| "js_add _ NaN = NaN"
| "js_add PosInf NegInf = NaN"
| "js_add NegInf PosInf = NaN"
| "js_add PosInf _ = PosInf"
| "js_add _ PosInf = PosInf"
| "js_add NegInf _ = NegInf"
| "js_add _ NegInf = NegInf"
| "js_add (Fin a) (Fin b) = Fin (a + b)"

definition js_sub :: "jsnum \<Rightarrow> jsnum \<Rightarrow> jsnum" where
  "js_sub a b = js_add a (js_neg b)"

text \<open>The sign of a number that is not NaN, for the products and quotients with an
  infinite operand.\<close>

fun js_sign :: "jsnum \<Rightarrow> int" where
  "js_sign NaN = 0"
| "js_sign NegInf = - 1"
| "js_sign PosInf = 1"
| "js_sign (Fin a) = (if a < 0 then - 1 else if a = 0 then 0 else 1)"

definition signed_inf :: "int \<Rightarrow> jsnum" where
  "signed_inf s = (if s < 0 then NegInf else if s = 0 then NaN else PosInf)"

fun js_mul :: "jsnum \<Rightarrow> jsnum \<Rightarrow> jsnum" where
  "js_mul NaN _ = NaN"
| "js_mul _ NaN = NaN"
| "js_mul (Fin a) (Fin b) = Fin (a * b)"
| "js_mul a b = signed_inf (js_sign a * js_sign b)"

text \<open>Division. A finite zero divisor is the positive zero: a non-zero dividend gives
  the infinity of its own sign, and \<open>0 / 0\<close> is NaN.\<close>

fun js_div :: "jsnum \<Rightarrow> jsnum \<Rightarrow> jsnum" where
  "js_div NaN _ = NaN"
| "js_div _ NaN = NaN"
| "js_div (Fin a) (Fin b) = (if b = 0 then signed_inf (js_sign (Fin a)) else Fin (a / b))"
| "js_div (Fin a) _ = Fin 0"
| "js_div a (Fin b) = signed_inf (js_sign a * (if b < 0 then - 1 else 1))"
| "js_div _ _ = NaN"

text \<open>\<^verbatim>\<open>Math.max\<close> and \<^verbatim>\<open>Math.min\<close> applied to an array of numbers: the neutral
  infinity for no argument, NaN as soon as one argument is NaN.\<close>

fun js_max2 :: "jsnum \<Rightarrow> jsnum \<Rightarrow> jsnum" where
  "js_max2 NaN _ = NaN"
| "js_max2 _ NaN = NaN"
| "js_max2 a b = (if js_le a b then b else a)"

fun js_min2 :: "jsnum \<Rightarrow> jsnum \<Rightarrow> jsnum" where
  "js_min2 NaN _ = NaN"
| "js_min2 _ NaN = NaN"
| "js_min2 a b = (if js_le a b then a else b)"

definition Math_max :: "jsnum list \<Rightarrow> jsnum" where
  "Math_max ws = fold (\<lambda>w highest. js_max2 highest w) ws NegInf"

definition Math_min :: "jsnum list \<Rightarrow> jsnum" where
  "Math_min ws = fold (\<lambda>w lowest. js_min2 lowest w) ws PosInf"

section \<open>Reading a number from attribute text\<close>

text \<open>
  The text of an attribute is a list of characters (code units below 256).
  \<^verbatim>\<open>$(e).attr(name)\<close> is \<open>None\<close> (\<^verbatim>\<open>undefined\<close>) when the element does not
  have the attribute.
\<close>

definition is_ws :: "char \<Rightarrow> bool" where
  "is_ws c = ((of_char c :: nat) \<in> {9, 10, 11, 12, 13, 32, 160})"

definition is_digit :: "char \<Rightarrow> bool" where
  "is_digit c = (48 \<le> (of_char c :: nat) \<and> (of_char c :: nat) \<le> 57)"

text \<open>The value of a digit in a radix up to 16, if the character is one.\<close>

definition digit_of :: "char \<Rightarrow> nat option" where
  "digit_of c =
     (let n = (of_char c :: nat) in
      if 48 \<le> n \<and> n \<le> 57 then Some (n - 48)
      else if 97 \<le> n \<and> n \<le> 102 then Some (n - 87)
      else if 65 \<le> n \<and> n \<le> 70 then Some (n - 55)
      else None)"

text \<open>The value of a non-empty run of digits of radix \<open>r\<close>; \<open>None\<close> when the text is
  empty or holds anything else.\<close>

definition digits_value :: "nat \<Rightarrow> string \<Rightarrow> nat option" where
  "digits_value r s =
     (if s = [] then None
      else fold (\<lambda>c acc. case acc of None \<Rightarrow> None
                   | Some a \<Rightarrow> (case digit_of c of None \<Rightarrow> None
                       | Some d \<Rightarrow> if d < r then Some (r * a + d) else None))
             s (Some 0))"

text \<open>
  \<^verbatim>\<open>parseInt(x, 10)\<close>: the argument is turned into a string (\<^verbatim>\<open>undefined\<close> becomes
  the text "undefined"), leading white space and one sign are dropped, and the longest
  prefix of decimal digits is read; NaN if that prefix is empty. The radix being 10,
  no \<^verbatim>\<open>0x\<close> prefix is recognised.
\<close>

definition parseInt10 :: "string option \<Rightarrow> jsnum" where
  "parseInt10 x =
     (let inputString = (case x of None \<Rightarrow> ''undefined'' | Some s \<Rightarrow> s);
          S = dropWhile is_ws inputString;
          neg = (S \<noteq> [] \<and> hd S = CHR ''-'');
          S1 = (if S \<noteq> [] \<and> (hd S = CHR ''+'' \<or> hd S = CHR ''-'') then tl S else S)
      in case digits_value 10 (takeWhile is_digit S1) of
           None \<Rightarrow> NaN
         | Some n \<Rightarrow> Fin (if neg then - of_nat n else of_nat n))"

text \<open>
  The conversion that a comparison of a string with a number applies to the string
  (\<^verbatim>\<open>ToNumber\<close>): white space is trimmed at both ends; the empty text is 0; the rest
  must be, as a whole, a signed decimal literal (with an optional fraction and an
  optional exponent), the word Infinity with an optional sign, or an unsigned binary,
  octal or hexadecimal integer literal; anything else is NaN.
\<close>

definition trim :: "string \<Rightarrow> string" where
  "trim s = rev (dropWhile is_ws (rev (dropWhile is_ws s)))"

definition exponent_part :: "string \<Rightarrow> int option" where
  "exponent_part s =
     (case s of
        [] \<Rightarrow> Some 0
      | c # r \<Rightarrow>
          if c = CHR ''e'' \<or> c = CHR ''E'' then
            (case r of
               [] \<Rightarrow> None
             | d # r' \<Rightarrow>
                 if d = CHR ''-'' then map_option (\<lambda>n. - int n) (digits_value 10 r')
                 else if d = CHR ''+'' then map_option int (digits_value 10 r')
                 else map_option int (digits_value 10 r))
          else None)"

definition scale10 :: "rat \<Rightarrow> int \<Rightarrow> rat" where
  "scale10 x e = (if 0 \<le> e then x * 10 ^ nat e else x / 10 ^ nat (- e))"

definition unsigned_decimal :: "string \<Rightarrow> jsnum" where
  "unsigned_decimal s =
     (if s = ''Infinity'' then PosInf
      else
        let ip = takeWhile is_digit s;
            r1 = dropWhile is_digit s;
            dot = (r1 \<noteq> [] \<and> hd r1 = CHR ''.'');
            fp = (if dot then takeWhile is_digit (tl r1) else []);
            r2 = (if dot then dropWhile is_digit (tl r1) else r1)
        in if ip = [] \<and> fp = [] then NaN
           else case exponent_part r2 of
                  None \<Rightarrow> NaN
                | Some e \<Rightarrow>
                    Fin (scale10
                      (of_nat (case digits_value 10 ip of None \<Rightarrow> 0 | Some n \<Rightarrow> n)
                       + of_nat (case digits_value 10 fp of None \<Rightarrow> 0 | Some n \<Rightarrow> n)
                           / 10 ^ length fp) e))"

definition non_decimal_radix :: "string \<Rightarrow> nat option" where
  "non_decimal_radix s =
     (case s of
        z # c # _ \<Rightarrow>
          if z \<noteq> CHR ''0'' then None
          else if c = CHR ''x'' \<or> c = CHR ''X'' then Some 16
          else if c = CHR ''o'' \<or> c = CHR ''O'' then Some 8
          else if c = CHR ''b'' \<or> c = CHR ''B'' then Some 2
          else None
      | _ \<Rightarrow> None)"

definition StringToNumber :: "string \<Rightarrow> jsnum" where
  "StringToNumber str =
     (let s = trim str in
      if s = [] then Fin 0
      else case non_decimal_radix s of
             Some r \<Rightarrow> (case digits_value r (drop 2 s) of None \<Rightarrow> NaN | Some n \<Rightarrow> Fin (of_nat n))
           | None \<Rightarrow>
               if hd s = CHR ''-'' then js_neg (unsigned_decimal (tl s))
               else if hd s = CHR ''+'' then unsigned_decimal (tl s)
               else unsigned_decimal s)"

definition ToNumber :: "string option \<Rightarrow> jsnum" where
  "ToNumber x = (case x of None \<Rightarrow> NaN | Some s \<Rightarrow> StringToNumber s)"

text \<open>
  The text that \<^verbatim>\<open>.attr(name, n)\<close> stores for a number \<open>n\<close> that is a natural number:
  its decimal numeral.
\<close>

definition digit_char :: "nat \<Rightarrow> char" where
  "digit_char d = ''0123456789'' ! d"

fun decimal :: "nat \<Rightarrow> string" where
  "decimal n =
     (if n < 10 then [digit_char n]
      else decimal (n div 10) @ [digit_char (n mod 10)])"

declare decimal.simps [simp del]

section \<open>Arrays with holes\<close>

text \<open>
  A JavaScript array that is written by index: a write past the end extends the array,
  leaving holes, and reading a hole or past the end gives \<^verbatim>\<open>undefined\<close>
  (\<open>None\<close>), which a comparison turns into NaN.
\<close>

definition js_store :: "'a option list \<Rightarrow> nat \<Rightarrow> 'a \<Rightarrow> 'a option list" where
  "js_store xs i v =
     (if i < length xs then xs[i := Some v]
      else xs @ replicate (i - length xs) None @ [Some v])"

definition js_index :: "'a option list \<Rightarrow> nat \<Rightarrow> 'a option" where
  "js_index xs i = (if i < length xs then xs ! i else None)"

definition operand :: "jsnum option \<Rightarrow> jsnum" where
  "operand v = (case v of None \<Rightarrow> NaN | Some n \<Rightarrow> n)"

section \<open>The plugin\<close>

text \<open>
  The settings, after \<^verbatim>\<open>$.extend\<close> has merged the overrides of the caller into the
  defaults.
\<close>

record settings =
  classes :: "string list"
  processedClassName :: string
  randomWeights :: bool
  tagSelector :: string
  weightAttribute :: string

definition default_settings :: settings where
  "default_settings =
     \<lparr>classes = [''tag-cloud-small'', ''tag-cloud-medium'', ''tag-cloud-large''],
      processedClassName = ''processed'',
      randomWeights = False,
      tagSelector = ''.tag-cloud-tag'',
      weightAttribute = ''data-tag-weight''\<rparr>"

text \<open>
  A tag is an element found by \<^verbatim>\<open>settings.tagSelector\<close>. Of its state the plugin reads
  the text of the attribute \<^verbatim>\<open>settings.weightAttribute\<close> and whether it has the class
  \<^verbatim>\<open>settings.processedClassName\<close>, and it adds classes of \<^verbatim>\<open>settings.classes\<close>. A class
  \<^verbatim>\<open>settings.classes[j]\<close> on the element is recorded by its index \<open>j\<close>, which takes the
  configured class names to be distinct, non-empty, free of white space and different
  from the processed class name. The plugin is modelled on one matched container, whose
  tags are the list given and are all the elements of the document that the selector
  finds.
\<close>

record tag =
  weight_attr :: "string option"
  band_classes :: "nat list"
  processed :: bool

text \<open>
  The block for \<^verbatim>\<open>settings.randomWeights\<close>: every tag gets the numeral of a number
  between 0 and 100 as its weight and loses the processed class (its other classes
  stay). \<open>random i\<close> stands for the number that \<^verbatim>\<open>Math.random\<close> yields for the tag of
  index \<open>i\<close>.
\<close>

definition random_weights :: "(nat \<Rightarrow> nat) \<Rightarrow> tag list \<Rightarrow> tag list" where
  "random_weights random tags =
     map (\<lambda>(i, e). e\<lparr>weight_attr := Some (decimal (random i mod 101)), processed := False\<rparr>)
       (enumerate 0 tags)"

text \<open>\<^verbatim>\<open>weights[i] = parseInt($(e).attr(settings.weightAttribute), 10)\<close>\<close>

definition weights :: "tag list \<Rightarrow> jsnum list" where
  "weights tags = map (\<lambda>e. parseInt10 (weight_attr e)) tags"

text \<open>\<^verbatim>\<open>rangeValues\<close>: the two ends are stored first, then the loop fills the
  indices from 1 to \<open>divisions - 1\<close>.\<close>

definition rangeSize :: "jsnum \<Rightarrow> jsnum \<Rightarrow> nat \<Rightarrow> jsnum" where
  "rangeSize mx mn divisions = js_div (js_sub mx mn) (Fin (of_nat divisions))"

definition rangeValues :: "jsnum \<Rightarrow> jsnum \<Rightarrow> nat \<Rightarrow> jsnum option list" where
  "rangeValues mx mn divisions =
     fold (\<lambda>j rv. js_store rv j (js_add mn (js_mul (Fin (of_nat j)) (rangeSize mx mn divisions))))
       [1..<divisions]
       (js_store (js_store [] 0 mn) divisions mx)"

text \<open>\<^verbatim>\<open>$current.addClass(settings.classes[j] + ' ' + settings.processedClassName)\<close>:
  a class that the element already has is not added again.\<close>

definition addClass :: "nat \<Rightarrow> tag \<Rightarrow> tag" where
  "addClass j e =
     e\<lparr>band_classes := (if j \<in> set (band_classes e) then band_classes e
                         else band_classes e @ [j]),
       processed := True\<rparr>"

text \<open>The body of the loop over the divisions, and the loop, for one tag.
  \<open>currentWeight\<close> is the text of the attribute, which each comparison converts.\<close>

definition division_step :: "jsnum option list \<Rightarrow> string option \<Rightarrow> nat \<Rightarrow> tag \<Rightarrow> tag" where
  "division_step rv currentWeight j e =
     (if js_ge (ToNumber currentWeight) (operand (js_index rv j))
         \<and> js_le (ToNumber currentWeight) (operand (js_index rv (j + 1)))
         \<and> \<not> processed e
      then addClass j e else e)"

definition classify :: "jsnum option list \<Rightarrow> nat \<Rightarrow> tag \<Rightarrow> tag" where
  "classify rv divisions e = fold (division_step rv (weight_attr e)) [0..<divisions] e"

text \<open>What the function passed to \<^verbatim>\<open>this.each\<close> does after the block for the random
  weights: the weights, their extremes, the boundaries, and the loop over the tags.\<close>

definition assign_classes :: "string list \<Rightarrow> tag list \<Rightarrow> tag list" where
  "assign_classes cs tags =
     (let ws = weights tags;
          mx = Math_max ws;
          mn = Math_min ws;
          divisions = length cs;
          rv = rangeValues mx mn divisions
      in map (classify rv divisions) tags)"

text \<open>The function passed to \<^verbatim>\<open>this.each\<close>, on the tags of the container.\<close>

definition tagCloud :: "settings \<Rightarrow> (nat \<Rightarrow> nat) \<Rightarrow> tag list \<Rightarrow> tag list" where
  "tagCloud settings random tags =
     assign_classes (classes settings)
       (if randomWeights settings then random_weights random tags else tags)"

text \<open>
  The plugin function has no \<^verbatim>\<open>throw\<close> statement and tests none of its inputs before
  it computes: a call always completes, and what the caller gets is the tags as the
  loops left them.
\<close>

datatype error = InvalidInput

definition plugin_call :: "settings \<Rightarrow> (nat \<Rightarrow> nat) \<Rightarrow> tag list \<Rightarrow> error + tag list" where
  "plugin_call settings random tags = Inr (tagCloud settings random tags)"

section \<open>Notions used in the statements\<close>

text \<open>The number that the comparisons of the second loop see for a tag.\<close>

definition weight :: "tag \<Rightarrow> jsnum" where
  "weight e = ToNumber (weight_attr e)"

text \<open>A tag that no run has touched: no band class, not marked processed.\<close>

definition fresh :: "tag \<Rightarrow> bool" where
  "fresh e = (band_classes e = [] \<and> \<not> processed e)"

text \<open>The weight \<open>w\<close> satisfies the two comparisons of division \<open>j\<close>.\<close>

definition in_division :: "jsnum option list \<Rightarrow> jsnum \<Rightarrow> nat \<Rightarrow> bool" where
  "in_division rv w j =
     (js_ge w (operand (js_index rv j)) \<and> js_le w (operand (js_index rv (j + 1))))"

text \<open>The boundaries that a run computes from its tags.\<close>

definition boundaries :: "string list \<Rightarrow> tag list \<Rightarrow> jsnum option list" where
  "boundaries cs tags =
     rangeValues (Math_max (weights tags)) (Math_min (weights tags)) (length cs)"

text \<open>Both readings that the plugin makes of the weight attribute, \<^verbatim>\<open>parseInt\<close> and
  the conversion in the comparisons, take its text for the number \<open>x\<close>; this makes
  \<open>x\<close> an integer.\<close>

definition reads_as :: "tag \<Rightarrow> rat \<Rightarrow> bool" where
  "reads_as e x = (parseInt10 (weight_attr e) = Fin x \<and> ToNumber (weight_attr e) = Fin x)"

text \<open>A fresh tag with the given attribute text.\<close>

definition new_tag :: "string \<Rightarrow> tag" where
  "new_tag s = \<lparr>weight_attr = Some s, band_classes = [], processed = False\<rparr>"

section \<open>One tag against a boundary array\<close>

lemma fold_step_processed:
  "processed e \<Longrightarrow> fold (division_step rv a) js e = e"
  by (induction js) (simp_all add: division_step_def)

lemma fold_step_no_match:
  "\<forall>j\<in>set js. \<not> in_division rv (ToNumber a) j \<Longrightarrow> fold (division_step rv a) js e = e"
  by (induction js) (auto simp: division_step_def in_division_def)

lemma processed_addClass: "processed (addClass j e)"
  by (simp add: addClass_def)

lemma classify_first:
  assumes "\<not> processed e" "j < n" "in_division rv (weight e) j"
    and "\<forall>i<j. \<not> in_division rv (weight e) i"
  shows "classify rv n e = addClass j e"
proof -
  have split: "[0..<n] = [0..<j] @ j # [Suc j..<n]"
    using assms(2) upt_add_eq_append[of 0 j "n - j"] by (simp add: upt_conv_Cons)
  have a: "fold (division_step rv (weight_attr e)) [0..<j] e = e"
    using assms(4) by (intro fold_step_no_match) (simp add: weight_def)
  have b: "division_step rv (weight_attr e) j e = addClass j e"
    using assms(1,3) by (simp add: division_step_def in_division_def weight_def)
  show ?thesis
    unfolding classify_def split
    by (simp add: a b fold_step_processed processed_addClass)
qed

text \<open>The loop for one tag: either it changes nothing, the tag being processed
  already or its weight in no division, or it adds the first division that holds the
  weight, and the processed mark.\<close>

lemma classify_unchanged_or_first:
  "((processed e \<or> (\<forall>j<n. \<not> in_division rv (weight e) j)) \<and> classify rv n e = e) \<or>
   (\<exists>j<n. \<not> processed e \<and> in_division rv (weight e) j
       \<and> (\<forall>i<j. \<not> in_division rv (weight e) i) \<and> classify rv n e = addClass j e)"
proof (cases "processed e \<or> (\<forall>j<n. \<not> in_division rv (weight e) j)")
  case True
  then have "classify rv n e = e"
    unfolding classify_def
    by (auto intro: fold_step_processed fold_step_no_match simp: weight_def)
  with True show ?thesis by blast
next
  case False
  then obtain j where j: "j < n" "in_division rv (weight e) j" and np: "\<not> processed e"
    by blast
  define m where "m = (LEAST j. j < n \<and> in_division rv (weight e) j)"
  have m: "m < n \<and> in_division rv (weight e) m"
    unfolding m_def using j by (metis (mono_tags, lifting) LeastI)
  have "\<forall>i<m. \<not> in_division rv (weight e) i"
  proof (intro allI impI)
    fix i assume "i < m"
    then have "\<not> (i < n \<and> in_division rv (weight e) i)"
      unfolding m_def by (rule not_less_Least)
    with \<open>i < m\<close> m show "\<not> in_division rv (weight e) i" by simp
  qed
  with m np classify_first[of e m n rv] show ?thesis by blast
qed

lemma addClass_fresh:
  "fresh e \<Longrightarrow> addClass j e = \<lparr>weight_attr = weight_attr e, band_classes = [j], processed = True\<rparr>"
  by (simp add: fresh_def addClass_def)

lemma classify_processed: "processed e \<Longrightarrow> classify rv n e = e"
  by (simp add: classify_def fold_step_processed)

lemma weight_attr_classify: "weight_attr (classify rv n e) = weight_attr e"
  using classify_unchanged_or_first[of e n rv] by (auto simp: addClass_def)

lemma classify_twice: "classify rv n (classify rv n e) = classify rv n e"
  using classify_unchanged_or_first[of e n rv]
  by (auto simp: classify_processed processed_addClass)

lemma not_in_division_NaN:
  "operand (js_index rv j) = NaN \<Longrightarrow> \<not> in_division rv w j"
  by (cases w) (simp_all add: in_division_def js_ge_def)

section \<open>The boundary array\<close>

lemma length_js_store:
  "length (js_store xs i v) = max (length xs) (Suc i)"
  by (auto simp: js_store_def)

lemma js_index_js_store:
  "i < length xs \<Longrightarrow> js_index (js_store xs i v) k = (if k = i then Some v else js_index xs k)"
  by (auto simp: js_store_def js_index_def)

lemma ends_stored:
  "js_store (js_store [] 0 mn) n mx = (if n = 0 then [Some mx] else Some mn # replicate (n - 1) None @ [Some mx])"
  by (simp add: js_store_def)

lemma fill_loop:
  assumes "length rv0 = Suc n" "k \<le> n"
  shows "length (fold (\<lambda>j rv. js_store rv j (f j)) [Suc 0..<k] rv0) = Suc n
       \<and> (\<forall>i. js_index (fold (\<lambda>j rv. js_store rv j (f j)) [Suc 0..<k] rv0) i
              = (if Suc 0 \<le> i \<and> i < k then Some (f i) else js_index rv0 i))"
  using assms(2)
proof (induction k)
  case 0
  then show ?case using assms(1) by simp
next
  case (Suc k)
  show ?case
  proof (cases "k = 0")
    case True
    then show ?thesis using assms(1) by simp
  next
    case False
    then have upt: "[Suc 0..<Suc k] = [Suc 0..<k] @ [k]" by simp
    from Suc have ih: "length (fold (\<lambda>j rv. js_store rv j (f j)) [Suc 0..<k] rv0) = Suc n"
      "\<And>i. js_index (fold (\<lambda>j rv. js_store rv j (f j)) [Suc 0..<k] rv0) i
              = (if Suc 0 \<le> i \<and> i < k then Some (f i) else js_index rv0 i)"
      by simp_all
    have k: "k < length (fold (\<lambda>j rv. js_store rv j (f j)) [Suc 0..<k] rv0)"
      using ih(1) Suc.prems by simp
    show ?thesis
      unfolding upt using False Suc.prems ih
      by (auto simp: length_js_store js_index_js_store[OF k])
  qed
qed

lemma length_rangeValues: "length (rangeValues mx mn n) = Suc n"
proof -
  have "length (js_store (js_store [] 0 mn) n mx) = Suc n"
    by (simp add: ends_stored)
  from fill_loop[OF this order_refl] show ?thesis
    by (simp add: rangeValues_def)
qed

lemma js_index_rangeValues:
  "js_index (rangeValues mx mn n) i =
     (if n \<le> i then (if i = n then Some mx else None)
      else if i = 0 then Some mn
      else Some (js_add mn (js_mul (Fin (of_nat i)) (rangeSize mx mn n))))"
proof -
  have len: "length (js_store (js_store [] 0 mn) n mx) = Suc n"
    by (simp add: ends_stored)
  have ends: "js_index (js_store (js_store [] 0 mn) n mx) k =
     (if k = n then Some mx else if k = 0 then Some mn else None)" for k
    by (auto simp: ends_stored js_index_def nth_append nth_Cons')
  from fill_loop[OF len order_refl] show ?thesis
    by (auto simp: rangeValues_def ends)
qed

text \<open>With finite ends and at least one class, every boundary is the linear
  interpolation; at the two ends the formula gives the stored end.\<close>

lemma boundary_finite:
  assumes "0 < n" "j \<le> n"
  shows "operand (js_index (rangeValues (Fin b) (Fin a) n) j)
           = Fin (a + of_nat j * (b - a) / of_nat n)"
  using assms
  by (auto simp: js_index_rangeValues operand_def rangeSize_def js_sub_def field_simps)

lemma boundary_NaN:
  "operand (js_index (rangeValues NaN NaN n) j) = NaN"
  by (auto simp: js_index_rangeValues operand_def)

lemma interpolation_mono:
  fixes a b :: rat
  assumes "a \<le> b" "i \<le> j" "0 < n"
  shows "a + of_nat i * (b - a) / of_nat n \<le> a + of_nat j * (b - a) / of_nat n"
proof -
  have "(of_nat i :: rat) * (b - a) \<le> of_nat j * (b - a)"
    using assms(1,2) by (intro mult_right_mono) simp_all
  then show ?thesis
    using assms(3) by (simp add: divide_right_mono)
qed


text \<open>A value between the first and the last of a sequence of boundaries lies between
  two consecutive ones, whatever the boundaries in between are.\<close>

lemma covered:
  fixes r :: "nat \<Rightarrow> rat"
  assumes "r 0 \<le> x" "x \<le> r n" "0 < n"
  shows "\<exists>j<n. r j \<le> x \<and> x \<le> r (Suc j)"
proof -
  define j where "j = (LEAST j. x \<le> r (Suc j))"
  have top: "x \<le> r (Suc (n - 1))"
    using assms(2,3) by simp
  then have up: "x \<le> r (Suc j)"
    unfolding j_def by (rule LeastI)
  have "j \<le> n - 1"
    unfolding j_def using top by (rule Least_le)
  then have jn: "j < n" using assms(3) by simp
  have "r j \<le> x"
  proof (cases j)
    case 0
    then show ?thesis using assms(1) by simp
  next
    case (Suc i)
    then have "i < j" by simp
    then have "\<not> x \<le> r (Suc i)"
      unfolding j_def by (rule not_less_Least)
    then show ?thesis using Suc by simp
  qed
  with up jn show ?thesis by blast
qed

section \<open>Minimum and maximum of the weights\<close>

lemma fold_max_NaN: "fold (\<lambda>w h. js_max2 h w) ws NaN = NaN"
  by (induction ws) simp_all

lemma fold_min_NaN: "fold (\<lambda>w h. js_min2 h w) ws NaN = NaN"
  by (induction ws) simp_all

lemma js_max2_NaN_right: "js_max2 h NaN = NaN"
  by (cases h) simp_all

lemma js_min2_NaN_right: "js_min2 h NaN = NaN"
  by (cases h) simp_all

lemma fold_max_has_NaN: "NaN \<in> set ws \<Longrightarrow> fold (\<lambda>w h. js_max2 h w) ws h = NaN"
  by (induction ws arbitrary: h) (auto simp: fold_max_NaN js_max2_NaN_right)

lemma fold_min_has_NaN: "NaN \<in> set ws \<Longrightarrow> fold (\<lambda>w h. js_min2 h w) ws h = NaN"
  by (induction ws arbitrary: h) (auto simp: fold_min_NaN js_min2_NaN_right)

lemma Math_NaN:
  "NaN \<in> set ws \<Longrightarrow> Math_max ws = NaN \<and> Math_min ws = NaN"
  by (simp add: Math_max_def Math_min_def fold_max_has_NaN fold_min_has_NaN)

lemma fold_max_Fin:
  "fold (\<lambda>w h. js_max2 h w) (map Fin xs) (Fin h) = Fin (fold max xs h)"
  by (induction xs arbitrary: h) (simp_all add: max_def)

lemma fold_min_Fin:
  "fold (\<lambda>w h. js_min2 h w) (map Fin xs) (Fin h) = Fin (fold min xs h)"
  by (induction xs arbitrary: h) (simp_all add: min_def)

lemma Math_max_Fin: "Math_max (map Fin (x # xs)) = Fin (Max (set (x # xs)))"
proof -
  have "Math_max (map Fin (x # xs)) = Fin (fold max xs x)"
    by (simp add: Math_max_def fold_max_Fin)
  then show ?thesis by (simp only: Max.set_eq_fold)
qed

lemma Math_min_Fin: "Math_min (map Fin (x # xs)) = Fin (Min (set (x # xs)))"
proof -
  have "Math_min (map Fin (x # xs)) = Fin (fold min xs x)"
    by (simp add: Math_min_def fold_min_Fin)
  then show ?thesis by (simp only: Min.set_eq_fold)
qed

lemma parseInt10_cases: "parseInt10 x = NaN \<or> (\<exists>k. parseInt10 x = Fin k)"
  by (auto simp: parseInt10_def Let_def split: option.splits)

text \<open>The parsed weights, when none of them is NaN, as a list of rationals.\<close>

lemma weights_all_finite:
  assumes "NaN \<notin> set (weights tags)"
  shows "\<exists>xs. weights tags = map Fin xs"
proof -
  have "\<forall>w\<in>set (weights tags). \<exists>k. w = Fin k"
  proof
    fix w assume w: "w \<in> set (weights tags)"
    then have "\<exists>e :: tag. w = parseInt10 (weight_attr e)"
      by (auto simp: weights_def)
    then obtain e :: tag where "w = parseInt10 (weight_attr e)" ..
    with w assms parseInt10_cases[of "weight_attr e"] show "\<exists>k. w = Fin k"
      by auto
  qed
  then have "\<forall>w\<in>set (weights tags). w = Fin (case w of Fin k \<Rightarrow> k | _ \<Rightarrow> 0)"
    by auto
  then have "weights tags = map Fin (map (\<lambda>w. case w of Fin k \<Rightarrow> k | _ \<Rightarrow> 0) (weights tags))"
    by (simp add: map_idI)
  then show ?thesis by blast
qed

text \<open>What the minimum and the maximum are, in each of the three situations: no tag,
  a tag that \<^verbatim>\<open>parseInt\<close> cannot read, and the regular one.\<close>

lemma min_max_cases:
  "(tags = [] \<and> Math_max (weights tags) = NegInf \<and> Math_min (weights tags) = PosInf)
   \<or> (NaN \<in> set (weights tags) \<and> Math_max (weights tags) = NaN \<and> Math_min (weights tags) = NaN)
   \<or> (\<exists>xs. xs \<noteq> [] \<and> weights tags = map Fin xs
         \<and> Math_max (weights tags) = Fin (Max (set xs))
         \<and> Math_min (weights tags) = Fin (Min (set xs)))"
proof (cases "tags = []")
  case True
  then show ?thesis by (simp add: weights_def Math_max_def Math_min_def)
next
  case ne: False
  show ?thesis
  proof (cases "NaN \<in> set (weights tags)")
    case True
    then show ?thesis using Math_NaN by blast
  next
    case False
    then obtain xs where xs: "weights tags = map Fin xs"
      using weights_all_finite by blast
    with ne have "xs \<noteq> []" by (auto simp: weights_def)
    then obtain y ys where "xs = y # ys" by (cases xs) auto
    with xs have "Math_max (weights tags) = Fin (Max (set xs))"
      "Math_min (weights tags) = Fin (Min (set xs))"
      by (simp_all only: Math_max_Fin Math_min_Fin)
    with xs \<open>xs \<noteq> []\<close> show ?thesis by blast
  qed
qed

text \<open>The regular situation: at least one tag, and \<^verbatim>\<open>parseInt\<close> reads every weight.
  Then the minimum and the maximum are finite, both are weights of tags, and every
  parsed weight lies between them.\<close>

lemma min_max_finite:
  assumes "tags \<noteq> []" "\<forall>e\<in>set tags. parseInt10 (weight_attr e) \<noteq> NaN"
  shows "\<exists>mn mx. Math_min (weights tags) = Fin mn \<and> Math_max (weights tags) = Fin mx
           \<and> Fin mn \<in> set (weights tags) \<and> Fin mx \<in> set (weights tags)
           \<and> (\<forall>x. Fin x \<in> set (weights tags) \<longrightarrow> mn \<le> x \<and> x \<le> mx)"
proof -
  from assms(2) have "NaN \<notin> set (weights tags)"
    by (auto simp: weights_def)
  with assms(1) min_max_cases[of tags] obtain xs where xs: "xs \<noteq> []"
    "weights tags = map Fin xs" "Math_max (weights tags) = Fin (Max (set xs))"
    "Math_min (weights tags) = Fin (Min (set xs))"
    by auto
  have "Min (set xs) \<in> set xs" "Max (set xs) \<in> set xs"
    using xs(1) by (simp_all add: Min_in Max_in)
  moreover have "\<forall>x\<in>set xs. Min (set xs) \<le> x \<and> x \<le> Max (set xs)"
    by simp
  ultimately show ?thesis
    using xs(2,3,4) by (auto simp: image_iff)
qed

text \<open>Conversely, a finite minimum can only come from the regular situation.\<close>

lemma finite_min_regular:
  assumes "Math_min (weights tags) = Fin mn"
  shows "tags \<noteq> [] \<and> (\<forall>e\<in>set tags. parseInt10 (weight_attr e) \<noteq> NaN)"
proof -
  have "tags \<noteq> []"
    using assms by (auto simp: weights_def Math_min_def)
  moreover have "NaN \<notin> set (weights tags)"
    using assms Math_NaN[of "weights tags"] by auto
  ultimately show ?thesis by (auto simp: weights_def image_iff)
qed

lemma min_le_max:
  assumes "Math_min (weights tags) = Fin mn" "Math_max (weights tags) = Fin mx"
  shows "mn \<le> mx"
proof -
  from finite_min_regular[OF assms(1)] min_max_finite[of tags] assms
  show ?thesis by auto
qed

section \<open>A run over the tags of a container\<close>

lemma assign_classes_map:
  "assign_classes cs tags = map (classify (boundaries cs tags) (length cs)) tags"
  by (simp add: assign_classes_def boundaries_def Let_def)

lemma tagCloud_map:
  "\<not> randomWeights settings \<Longrightarrow>
     tagCloud settings random tags
       = map (classify (boundaries (classes settings) tags) (length (classes settings))) tags"
  by (simp add: tagCloud_def assign_classes_map)

lemma tagCloud_nth:
  "\<not> randomWeights settings \<Longrightarrow> k < length tags \<Longrightarrow>
     tagCloud settings random tags ! k
       = classify (boundaries (classes settings) tags) (length (classes settings)) (tags ! k)"
  by (simp add: tagCloud_map)

text \<open>With random weights a run overwrites the weights, forgets the processed marks and
  keeps the band classes that the tags already have.\<close>

lemma random_weights_example:
  "tagCloud (default_settings\<lparr>randomWeights := True\<rparr>) (\<lambda>i. if i = 0 then 3 else 53)
     [new_tag ''x'', \<lparr>weight_attr = None, band_classes = [0], processed = True\<rparr>]
   = [\<lparr>weight_attr = Some ''3'', band_classes = [0], processed = True\<rparr>,
      \<lparr>weight_attr = Some ''53'', band_classes = [0, 2], processed = True\<rparr>]"
  by code_simp

lemma weights_tagCloud:
  "\<not> randomWeights settings \<Longrightarrow> weights (tagCloud settings random tags) = weights tags"
  by (simp add: tagCloud_map weights_def weight_attr_classify)

lemma boundaries_tagCloud:
  "\<not> randomWeights settings \<Longrightarrow>
     boundaries cs (tagCloud settings random tags) = boundaries cs tags"
  by (simp add: boundaries_def weights_tagCloud)

text \<open>When \<^verbatim>\<open>parseInt\<close> cannot read the weight of some tag, every boundary is NaN and
  no weight is in any division.\<close>

lemma boundaries_NaN:
  assumes "NaN \<in> set (weights tags)"
  shows "operand (js_index (boundaries cs tags) j) = NaN"
  using Math_NaN[OF assms] by (simp add: boundaries_def boundary_NaN)

lemma classify_NaN:
  assumes "NaN \<in> set (weights tags)"
  shows "classify (boundaries cs tags) n e = e"
  unfolding classify_def
  by (intro fold_step_no_match ballI not_in_division_NaN boundaries_NaN[OF assms])

text \<open>With no class, the loop over the divisions has no iteration.\<close>

lemma classify_no_division: "classify rv 0 e = e"
  by (simp add: classify_def)

text \<open>In the regular situation the boundaries are finite and ascending, and a division
  holds the weights between its two boundaries.\<close>

lemma in_division_regular:
  assumes "Math_min (weights tags) = Fin mn" "Math_max (weights tags) = Fin mx"
    and "j < length cs"
  shows "in_division (boundaries cs tags) w j \<longleftrightarrow>
     (\<exists>x. w = Fin x
        \<and> mn + of_nat j * (mx - mn) / of_nat (length cs) \<le> x
        \<and> x \<le> mn + of_nat (Suc j) * (mx - mn) / of_nat (length cs))"
proof -
  have n: "0 < length cs" using assms(3) by (cases cs) simp_all
  have b: "operand (js_index (boundaries cs tags) i)
      = Fin (mn + of_nat i * (mx - mn) / of_nat (length cs))"
    if "i \<le> length cs" for i
    using boundary_finite[OF n that] by (simp add: boundaries_def assms(1,2))
  show ?thesis
    using assms(3) by (cases w) (simp_all add: in_division_def js_ge_def b)
qed

text \<open>With at least one tag, a division cannot hold a weight unless the minimum and
  the maximum are finite.\<close>

lemma in_division_finite_ends:
  assumes "in_division (boundaries cs tags) w j" "tags \<noteq> []"
  shows "\<exists>mn mx. Math_min (weights tags) = Fin mn \<and> Math_max (weights tags) = Fin mx"
proof -
  from min_max_cases[of tags] assms(2) show ?thesis
  proof (elim disjE conjE exE)
    assume "NaN \<in> set (weights tags)"
    from not_in_division_NaN[OF boundaries_NaN[OF this]] assms(1) show ?thesis by blast
  qed blast+
qed

text \<open>What a run does to a fresh tag: nothing, when no division holds its weight;
  otherwise it gives it the first division that does, and the processed mark.\<close>

lemma tagCloud_fresh:
  assumes "\<not> randomWeights settings" "k < length tags" "fresh (tags ! k)"
  shows "((\<forall>j<length (classes settings).
              \<not> in_division (boundaries (classes settings) tags) (weight (tags ! k)) j)
            \<and> tagCloud settings random tags ! k = tags ! k)
       \<or> (\<exists>j<length (classes settings).
              in_division (boundaries (classes settings) tags) (weight (tags ! k)) j
            \<and> (\<forall>i<j. \<not> in_division (boundaries (classes settings) tags) (weight (tags ! k)) i)
            \<and> tagCloud settings random tags ! k
                 = \<lparr>weight_attr = weight_attr (tags ! k), band_classes = [j], processed = True\<rparr>)"
  using classify_unchanged_or_first[of "tags ! k" "length (classes settings)"
      "boundaries (classes settings) tags"]
    assms(3) addClass_fresh[OF assms(3)]
  by (auto simp: tagCloud_nth[OF assms(1,2)] fresh_def)

text \<open>The two ends in the regular situation: the first division holds the minimum, and
  when the minimum is below the maximum, the last division is the only one that holds
  the maximum.\<close>

lemma min_in_first_division:
  assumes "Math_min (weights tags) = Fin mn" "Math_max (weights tags) = Fin mx"
    and "cs \<noteq> []"
  shows "in_division (boundaries cs tags) (Fin mn) 0"
proof -
  have n: "0 < length cs" using assms(3) by simp
  have "mn + of_nat 0 * (mx - mn) / of_nat (length cs)
          \<le> mn + of_nat (Suc 0) * (mx - mn) / of_nat (length cs)"
    by (intro interpolation_mono min_le_max[OF assms(1,2)] n) simp
  then show ?thesis
    using in_division_regular[OF assms(1,2) n, of "Fin mn"] by simp
qed


text \<open>The first band for a fresh tag whose weight is the finite minimum.\<close>

lemma min_weight_first_band:
  assumes "\<not> randomWeights settings" "k < length tags" "fresh (tags ! k)"
    and "classes settings \<noteq> []"
    and "Math_min (weights tags) = Fin mn" "Math_max (weights tags) = Fin mx"
    and "weight (tags ! k) = Fin mn"
  shows "tagCloud settings random tags ! k
           = \<lparr>weight_attr = weight_attr (tags ! k), band_classes = [0], processed = True\<rparr>"
proof -
  let ?rv = "boundaries (classes settings) tags"
  have z: "in_division ?rv (weight (tags ! k)) 0"
    using min_in_first_division[OF assms(5,6,4)] assms(7) by simp
  with tagCloud_fresh[OF assms(1,2,3), of random]
  obtain j where j: "\<forall>i<j. \<not> in_division ?rv (weight (tags ! k)) i"
    "tagCloud settings random tags ! k
       = \<lparr>weight_attr = weight_attr (tags ! k), band_classes = [j], processed = True\<rparr>"
    using assms(4) by auto
  with z have "j = 0" by (cases j) auto
  with j(2) show ?thesis by simp
qed


section \<open>Weights that both readings agree on\<close>

text \<open>When \<^verbatim>\<open>parseInt\<close> and the conversion in the comparisons read the same number
  from every weight attribute, every fresh tag gets exactly one band, below the number of
  classes, and the processed mark.\<close>

lemma integer_weights_one_band:
  assumes "\<not> randomWeights settings" "\<forall>e\<in>set tags. \<exists>x. reads_as e x"
    and "classes settings \<noteq> []" "k < length tags" "fresh (tags ! k)"
  shows "\<exists>j<length (classes settings). tagCloud settings random tags ! k
           = \<lparr>weight_attr = weight_attr (tags ! k), band_classes = [j], processed = True\<rparr>"
proof -
  let ?n = "length (classes settings)"
  have ne: "tags \<noteq> []" using assms(4) by auto
  have "\<forall>e\<in>set tags. parseInt10 (weight_attr e) \<noteq> NaN"
    using assms(2) by (auto simp: reads_as_def)
  from min_max_finite[OF ne this] obtain mn mx where m:
    "Math_min (weights tags) = Fin mn" "Math_max (weights tags) = Fin mx"
    "\<forall>x. Fin x \<in> set (weights tags) \<longrightarrow> mn \<le> x \<and> x \<le> mx"
    by blast
  from assms(2,4) obtain x where x: "reads_as (tags ! k) x"
    by (meson nth_mem)
  have "parseInt10 (weight_attr (tags ! k)) \<in> set (weights tags)"
    unfolding weights_def set_map using assms(4) by (intro imageI nth_mem)
  with x have "Fin x \<in> set (weights tags)"
    by (simp add: reads_as_def)
  with m(3) have bounds: "mn \<le> x" "x \<le> mx" by simp_all
  have n: "0 < ?n" using assms(3) by simp
  have "\<exists>j<?n. mn + of_nat j * (mx - mn) / of_nat ?n \<le> x
      \<and> x \<le> mn + of_nat (Suc j) * (mx - mn) / of_nat ?n"
    using bounds n by (intro covered) simp_all
  then obtain j where j: "j < ?n"
    "mn + of_nat j * (mx - mn) / of_nat ?n \<le> x"
    "x \<le> mn + of_nat (Suc j) * (mx - mn) / of_nat ?n"
    by blast
  have w: "weight (tags ! k) = Fin x"
    using x by (simp add: weight_def reads_as_def)
  have "in_division (boundaries (classes settings) tags) (weight (tags ! k)) j"
    using in_division_regular[OF m(1,2) j(1), of "Fin x"] j(2,3) w by simp
  with tagCloud_fresh[OF assms(1,4,5), of random] j(1) show ?thesis
    by blast
qed

text \<open>When both readings of every weight attribute give the same number \<open>x\<close>, every
  boundary is \<open>x\<close> and every fresh tag gets band 0.\<close>

lemma equal_integer_weights:
  assumes "\<not> randomWeights settings" "tags \<noteq> []" "\<forall>e\<in>set tags. reads_as e x"
    and "classes settings \<noteq> []"
  shows "boundaries (classes settings) tags
           = replicate (length (classes settings) + 1) (Some (Fin x))
       \<and> (\<forall>k<length tags. fresh (tags ! k) \<longrightarrow>
             tagCloud settings random tags ! k
               = \<lparr>weight_attr = weight_attr (tags ! k), band_classes = [0], processed = True\<rparr>)"
proof -
  let ?n = "length (classes settings)"
  let ?rv = "boundaries (classes settings) tags"
  have all: "\<forall>w\<in>set (weights tags). w = Fin x"
    using assms(3) by (auto simp: weights_def reads_as_def)
  have "\<forall>e\<in>set tags. parseInt10 (weight_attr e) \<noteq> NaN"
    using assms(3) by (auto simp: reads_as_def)
  from min_max_finite[OF assms(2) this] all
  have m: "Math_min (weights tags) = Fin x" "Math_max (weights tags) = Fin x"
    by auto
  have n: "0 < ?n" using assms(4) by simp
  have b: "?rv ! i = Some (Fin x)" if "i < ?n + 1" for i
  proof -
    have "?rv ! i = js_index (rangeValues (Fin x) (Fin x) ?n) i"
      using that by (simp add: boundaries_def m js_index_def length_rangeValues)
    also have "\<dots> = Some (operand (js_index (rangeValues (Fin x) (Fin x) ?n) i))"
      using that by (auto simp: js_index_rangeValues operand_def)
    also have "\<dots> = Some (Fin x)"
      using boundary_finite[OF n, of i x x] that by simp
    finally show ?thesis .
  qed
  have "?rv = replicate (?n + 1) (Some (Fin x))"
  proof (rule nth_equalityI)
    show "length ?rv = length (replicate (?n + 1) (Some (Fin x)))"
      by (simp add: boundaries_def length_rangeValues)
    fix i assume "i < length ?rv"
    then have i: "i < ?n + 1"
      by (simp add: boundaries_def length_rangeValues)
    then show "?rv ! i = replicate (?n + 1) (Some (Fin x)) ! i"
      using b[OF i] by (simp only: nth_replicate)
  qed
  moreover have "tagCloud settings random tags ! k
       = \<lparr>weight_attr = weight_attr (tags ! k), band_classes = [0], processed = True\<rparr>"
    if "k < length tags" "fresh (tags ! k)" for k
  proof -
    have "weight (tags ! k) = Fin x"
      using assms(3) that(1) by (simp add: weight_def reads_as_def)
    from min_weight_first_band[OF assms(1) that assms(4) m this] show ?thesis .
  qed
  ultimately show ?thesis by blast
qed

section \<open>The claims\<close>

text \<open>
  Claim C1. The claim fails on a weight with a fraction. \<^verbatim>\<open>parseInt\<close> reads "20.5" as 20,
  so the maximum of the weights "10" and "20.5" is 20, while the comparisons of the
  second loop, which convert the text of the attribute as a whole, see 20.5: the tag
  lies above the last boundary and is left without a band and without the processed
  mark.
\<close>

theorem fraction_weight_left_out:
  "parseInt10 (Some ''20.5'') = Fin 20
   \<and> weight (new_tag ''20.5'') = Fin (41 / 2)
   \<and> boundaries (classes default_settings) [new_tag ''10'', new_tag ''20.5'']
       = [Some (Fin 10), Some (Fin (40 / 3)), Some (Fin (50 / 3)), Some (Fin 20)]
   \<and> tagCloud default_settings (\<lambda>i. 0) [new_tag ''10'', new_tag ''20.5'']
       = [\<lparr>weight_attr = Some ''10'', band_classes = [0], processed = True\<rparr>,
          \<lparr>weight_attr = Some ''20.5'', band_classes = [], processed = False\<rparr>]"
  by code_simp

text \<open>
  Claim C2. For two fresh tags of the same container, of which the first has the smaller
  or the same weight (the number that the comparisons see): every band that the run
  gives to the first is at most every band that it gives to the second.
\<close>

theorem band_monotone:
  assumes "\<not> randomWeights settings"
    and "k < length tags" "l < length tags" "fresh (tags ! k)" "fresh (tags ! l)"
    and "js_le (weight (tags ! k)) (weight (tags ! l))"
    and "i \<in> set (band_classes (tagCloud settings random tags ! k))"
    and "j \<in> set (band_classes (tagCloud settings random tags ! l))"
  shows "i \<le> j"
proof -
  let ?rv = "boundaries (classes settings) tags"
  let ?n = "length (classes settings)"
  have fk: "band_classes (tags ! k) = []" and fl: "band_classes (tags ! l) = []"
    using assms(4,5) by (simp_all add: fresh_def)
  from tagCloud_fresh[OF assms(1,2,4), of random] assms(7) fk
  have i: "i < ?n" "in_division ?rv (weight (tags ! k)) i"
    "\<forall>m<i. \<not> in_division ?rv (weight (tags ! k)) m"
    by auto
  from tagCloud_fresh[OF assms(1,3,5), of random] assms(8) fl
  have j: "j < ?n" "in_division ?rv (weight (tags ! l)) j"
    by auto
  have ne: "tags \<noteq> []" using assms(2) by auto
  from in_division_finite_ends[OF i(2) ne] obtain mn mx where
    m: "Math_min (weights tags) = Fin mn" "Math_max (weights tags) = Fin mx"
    by blast
  note reg = in_division_regular[OF m, of _ "classes settings"]
  from i(2) reg[OF i(1)] obtain x where x: "weight (tags ! k) = Fin x"
    "mn + of_nat i * (mx - mn) / of_nat ?n \<le> x"
    by blast
  from j(2) reg[OF j(1)] obtain y where y: "weight (tags ! l) = Fin y"
    "mn + of_nat j * (mx - mn) / of_nat ?n \<le> y"
    "y \<le> mn + of_nat (Suc j) * (mx - mn) / of_nat ?n"
    by blast
  from assms(6) x(1) y(1) have xy: "x \<le> y" by simp
  have n: "0 < ?n" using i(1) by (cases "classes settings") simp_all
  show ?thesis
  proof (rule ccontr)
    assume "\<not> i \<le> j"
    then have lt: "j < i" by simp
    with i(3) have "\<not> in_division ?rv (weight (tags ! k)) j" by blast
    with reg[OF j(1)] x(1) xy y(3)
    have "x < mn + of_nat j * (mx - mn) / of_nat ?n" by auto
    moreover have "mn + of_nat j * (mx - mn) / of_nat ?n \<le> mn + of_nat i * (mx - mn) / of_nat ?n"
      using lt by (intro interpolation_mono min_le_max[OF m] n) simp
    ultimately show False using x(2) by simp
  qed
qed

theorem band_monotone_witness:
  "\<not> randomWeights default_settings
   \<and> fresh ([new_tag ''11'', new_tag ''38'', new_tag ''87''] ! 0)
   \<and> fresh ([new_tag ''11'', new_tag ''38'', new_tag ''87''] ! 1)
   \<and> js_le (weight ([new_tag ''11'', new_tag ''38'', new_tag ''87''] ! 0))
            (weight ([new_tag ''11'', new_tag ''38'', new_tag ''87''] ! 1))
   \<and> band_classes (tagCloud default_settings (\<lambda>i. 0)
         [new_tag ''11'', new_tag ''38'', new_tag ''87''] ! 0) = [0]
   \<and> band_classes (tagCloud default_settings (\<lambda>i. 0)
         [new_tag ''11'', new_tag ''38'', new_tag ''87''] ! 1) = [1]
   \<and> (0::nat) \<le> 1"
proof -
  let ?T = "[new_tag ''11'', new_tag ''38'', new_tag ''87'']"
  have nr: "\<not> randomWeights default_settings"
    by (simp add: default_settings_def)
  have r: "tagCloud default_settings (\<lambda>i. 0) ?T
     = [\<lparr>weight_attr = Some ''11'', band_classes = [0], processed = True\<rparr>,
        \<lparr>weight_attr = Some ''38'', band_classes = [1], processed = True\<rparr>,
        \<lparr>weight_attr = Some ''87'', band_classes = [2], processed = True\<rparr>]"
    by code_simp
  have b0: "band_classes (tagCloud default_settings (\<lambda>i. 0) ?T ! 0) = [0]"
    and b1: "band_classes (tagCloud default_settings (\<lambda>i. 0) ?T ! 1) = [1]"
    by (simp_all add: r)
  have f0: "fresh (?T ! 0)" and f1: "fresh (?T ! 1)"
    by (simp_all add: fresh_def new_tag_def)
  have le: "js_le (weight (?T ! 0)) (weight (?T ! 1))"
    by code_simp
  have "(0::nat) \<le> 1"
    by (rule band_monotone[of default_settings 0 ?T 1 0 "\<lambda>i. 0" 1])
       (use nr f0 f1 le b0 b1 in simp_all)
  with nr b0 b1 f0 f1 le show ?thesis by blast
qed







text \<open>
  Claim C5. The claim fails on equal weights with a fraction: for two tags of weight
  "5.5" every boundary is 5, the value that \<^verbatim>\<open>parseInt\<close> reads, while the comparisons
  see 5.5, so that both tags are left without a band.
\<close>

theorem equal_fraction_weights_left_out:
  "weight (new_tag ''5.5'') = Fin (11 / 2)
   \<and> boundaries (classes default_settings) [new_tag ''5.5'', new_tag ''5.5'']
       = [Some (Fin 5), Some (Fin 5), Some (Fin 5), Some (Fin 5)]
   \<and> tagCloud default_settings (\<lambda>i. 0) [new_tag ''5.5'', new_tag ''5.5'']
       = [\<lparr>weight_attr = Some ''5.5'', band_classes = [], processed = False\<rparr>,
          \<lparr>weight_attr = Some ''5.5'', band_classes = [], processed = False\<rparr>]"
  by code_simp

text \<open>
  Claim C6. Without random weights, a run on tags that all carry the processed mark
  returns them unchanged, and so does a second run on the result of a first one,
  whatever the first one did.
\<close>

theorem rerun_changes_nothing:
  assumes "\<not> randomWeights settings"
  shows "((\<forall>e\<in>set tags. processed e) \<longrightarrow> tagCloud settings random tags = tags)
       \<and> tagCloud settings random (tagCloud settings random tags)
           = tagCloud settings random tags"
proof
  show "(\<forall>e\<in>set tags. processed e) \<longrightarrow> tagCloud settings random tags = tags"
    by (simp add: tagCloud_map[OF assms] classify_processed map_idI)
  have "tagCloud settings random (tagCloud settings random tags)
      = map (classify (boundaries (classes settings) tags) (length (classes settings)))
          (tagCloud settings random tags)"
    by (simp add: tagCloud_map[OF assms, of random "tagCloud settings random tags"]
        boundaries_tagCloud[OF assms])
  also have "\<dots> = tagCloud settings random tags"
    by (simp add: tagCloud_map[OF assms, of random tags] classify_twice)
  finally show "tagCloud settings random (tagCloud settings random tags)
      = tagCloud settings random tags" .
qed

theorem rerun_changes_nothing_witness:
  "\<not> randomWeights default_settings
   \<and> list_all processed
        [\<lparr>weight_attr = Some ''11'', band_classes = [0], processed = True\<rparr>,
         \<lparr>weight_attr = Some ''87'', band_classes = [2], processed = True\<rparr>]
   \<and> tagCloud default_settings (\<lambda>i. 0)
        [\<lparr>weight_attr = Some ''11'', band_classes = [0], processed = True\<rparr>,
         \<lparr>weight_attr = Some ''87'', band_classes = [2], processed = True\<rparr>]
     = [\<lparr>weight_attr = Some ''11'', band_classes = [0], processed = True\<rparr>,
        \<lparr>weight_attr = Some ''87'', band_classes = [2], processed = True\<rparr>]"
proof -
  have nr: "\<not> randomWeights default_settings"
    by (simp add: default_settings_def)
  from rerun_changes_nothing[OF nr, of
      "[\<lparr>weight_attr = Some ''11'', band_classes = [0], processed = True\<rparr>,
        \<lparr>weight_attr = Some ''87'', band_classes = [2], processed = True\<rparr>]" "\<lambda>i. 0"] nr
  show ?thesis by simp
qed

text \<open>
  Claim C7, as amended. No input makes a call report an error. Without random weights,
  on an empty list of tags, with an empty list of classes, or when \<^verbatim>\<open>parseInt\<close> cannot
  read the weight of some tag, the call completes and leaves every tag as it was.
\<close>

theorem malformed_input_no_op:
  assumes "\<not> randomWeights settings"
    and "tags = [] \<or> classes settings = []
           \<or> (\<exists>e\<in>set tags. parseInt10 (weight_attr e) = NaN)"
  shows "plugin_call settings random tags = Inr tags"
proof -
  from assms(2) consider "tags = []" | "classes settings = []"
    | "\<exists>e\<in>set tags. parseInt10 (weight_attr e) = NaN"
    by blast
  then have "tagCloud settings random tags = tags"
  proof cases
    case 1
    then show ?thesis by (simp add: tagCloud_map[OF assms(1)])
  next
    case 2
    then show ?thesis
      by (simp add: tagCloud_map[OF assms(1)] classify_no_division map_idI)
  next
    case 3
    then have "NaN \<in> set (weights tags)"
      by (force simp: weights_def)
    then show ?thesis
      by (simp add: tagCloud_map[OF assms(1)] classify_NaN map_idI)
  qed
  then show ?thesis by (simp add: plugin_call_def)
qed

theorem malformed_input_no_op_witness:
  "\<not> randomWeights default_settings
   \<and> plugin_call default_settings (\<lambda>i. 0) [] = Inr []
   \<and> classes (default_settings\<lparr>classes := []\<rparr>) = []
   \<and> plugin_call (default_settings\<lparr>classes := []\<rparr>) (\<lambda>i. 0) [new_tag ''11'', new_tag ''87'']
       = Inr [new_tag ''11'', new_tag ''87'']
   \<and> parseInt10 (weight_attr (new_tag ''Infinity'')) = NaN
   \<and> plugin_call default_settings (\<lambda>i. 0) [new_tag ''11'', new_tag ''Infinity'']
       = Inr [new_tag ''11'', new_tag ''Infinity'']"
proof -
  have nr: "\<not> randomWeights default_settings"
    and nr': "\<not> randomWeights (default_settings\<lparr>classes := []\<rparr>)"
    and c: "classes (default_settings\<lparr>classes := []\<rparr>) = []"
    by (simp_all add: default_settings_def)
  have n: "parseInt10 (weight_attr (new_tag ''Infinity'')) = NaN"
    by code_simp
  then have h: "\<exists>e\<in>set [new_tag ''11'', new_tag ''Infinity'']. parseInt10 (weight_attr e) = NaN"
    by simp
  show ?thesis
    using malformed_input_no_op[OF nr, of "[]" "\<lambda>i. 0"]
      malformed_input_no_op[OF nr', of "[new_tag ''11'', new_tag ''87'']" "\<lambda>i. 0"]
      malformed_input_no_op[OF nr, of "[new_tag ''11'', new_tag ''Infinity'']" "\<lambda>i. 0"]
      nr c n h
    by blast
qed

theorem malformed_input_counterexample:
  "plugin_call default_settings (\<lambda>i. 0) [] = Inr []
   \<and> plugin_call (default_settings\<lparr>classes := []\<rparr>) (\<lambda>i. 0) [new_tag ''11'']
       = Inr [new_tag ''11'']
   \<and> weight (new_tag ''12px'') = NaN
   \<and> plugin_call default_settings (\<lambda>i. 0) [new_tag ''10'', new_tag ''12px'', new_tag ''20'']
       = Inr [\<lparr>weight_attr = Some ''10'', band_classes = [0], processed = True\<rparr>,
              \<lparr>weight_attr = Some ''12px'', band_classes = [], processed = False\<rparr>,
              \<lparr>weight_attr = Some ''20'', band_classes = [2], processed = True\<rparr>]"
  by code_simp



text \<open>
  Claim C9. On three fresh tags with the weights 11, 38 and 87 and the three default
  classes, the boundaries are 11, 109/3 = 36.33..., 185/3 = 61.66... and 87, and the tags
  get the bands 0, 1 and 2, in this order, each of them marked processed.
\<close>

theorem documented_example:
  "boundaries (classes default_settings) [new_tag ''11'', new_tag ''38'', new_tag ''87'']
     = [Some (Fin 11), Some (Fin (109 / 3)), Some (Fin (185 / 3)), Some (Fin 87)]
   \<and> tagCloud default_settings (\<lambda>i. 0) [new_tag ''11'', new_tag ''38'', new_tag ''87'']
     = [\<lparr>weight_attr = Some ''11'', band_classes = [0], processed = True\<rparr>,
        \<lparr>weight_attr = Some ''38'', band_classes = [1], processed = True\<rparr>,
        \<lparr>weight_attr = Some ''87'', band_classes = [2], processed = True\<rparr>]"
  by code_simp

text \<open>
  Claim C10. Without random weights, if \<^verbatim>\<open>parseInt\<close> cannot read the weight of some tag
  of the container (it gives NaN), the maximum and the minimum are NaN and the run
  leaves every tag as it was: no band class and no processed mark is added to any.
\<close>

theorem unparsable_weight_no_op:
  assumes "\<not> randomWeights settings"
    and "\<exists>e\<in>set tags. parseInt10 (weight_attr e) = NaN"
  shows "Math_max (weights tags) = NaN \<and> Math_min (weights tags) = NaN
       \<and> tagCloud settings random tags = tags"
proof -
  from assms(2) have "NaN \<in> set (weights tags)"
    by (force simp: weights_def)
  then show ?thesis
    by (simp add: Math_NaN tagCloud_map[OF assms(1)] classify_NaN map_idI)
qed

theorem unparsable_weight_no_op_witness:
  "\<not> randomWeights default_settings
   \<and> parseInt10 (weight_attr (new_tag ''many'')) = NaN
   \<and> tagCloud default_settings (\<lambda>i. 0) [new_tag ''11'', new_tag ''many'', new_tag ''87'']
       = [new_tag ''11'', new_tag ''many'', new_tag ''87'']"
proof -
  have nr: "\<not> randomWeights default_settings"
    by (simp add: default_settings_def)
  have n: "parseInt10 (weight_attr (new_tag ''many'')) = NaN"
    by code_simp
  then have h: "\<exists>e\<in>set [new_tag ''11'', new_tag ''many'', new_tag ''87'']. parseInt10 (weight_attr e) = NaN"
    by simp
  from unparsable_weight_no_op[OF nr h, of "\<lambda>i. 0"] nr n show ?thesis by blast
qed

end
